theory Spec2Isabelle
  imports Complex_Main
begin

section \<open>The stacking core of \<^verbatim>\<open>stacker.py\<close> and the reader of \<^verbatim>\<open>gen_utils.py\<close>\<close>

text \<open>
  The two modules work on a scene that lives in the host application: every function
  queries the host for a world-space bounding box and asks the host to translate an
  object. The embedding threads the scene through the functions explicitly. Coordinates
  are the host's floats. The functions are given twice: first with \<^typ>\<open>real\<close>
  arithmetic, which is what the code computes before rounding and settles every property
  that states the expression the code evaluates or that survives rounding unchanged; then
  with every operation rounded, for the properties that rest on a cancellation, which
  rounding disturbs.
\<close>

subsection \<open>Data\<close>

text \<open>An object reference is the name of a transform node.\<close>

type_synonym obj = string

text \<open>A point is the three-element list \<^verbatim>\<open>[x, y, z]\<close> of the code.\<close>

type_synonym point3 = "real \<times> real \<times> real"

definition px :: "point3 \<Rightarrow> real" where
  "px p = fst p"

definition py :: "point3 \<Rightarrow> real" where
  "py p = fst (snd p)"

definition pz :: "point3 \<Rightarrow> real" where
  "pz p = snd (snd p)"

text \<open>
  The list \<^verbatim>\<open>[xmin, ymin, zmin, xmax, ymax, zmax]\<close> that the bounding-box query returns;
  index 0 is \<open>xmin\<close>, 1 is \<open>ymin\<close>, 2 is \<open>zmin\<close>, 3 is \<open>xmax\<close>, 4 is \<open>ymax\<close>, 5 is \<open>zmax\<close>.
\<close>

record bbox =
  xmin :: real
  ymin :: real
  zmin :: real
  xmax :: real
  ymax :: real
  zmax :: real

datatype error = HostQueryFailure | KeyError | ParseError

subsection \<open>The host scene\<close>

text \<open>
  Modelled from the spec: the host application (\<^verbatim>\<open>maya.cmds\<close>) is not part of the
  repository. Following the data model of the specification, a scene associates each
  object reference with its world-space axis-aligned bounding box; objects are
  independent of one another. \<^verbatim>\<open>xform(o, query=True, boundingBox=True)\<close> returns the box
  of \<open>o\<close>, \<^verbatim>\<open>move(dx, dy, dz, o, relative=True)\<close> translates \<open>o\<close>, and so its box, by
  \<open>(dx, dy, dz)\<close>; both fail on a reference the scene does not hold.
\<close>

type_synonym scene = "obj \<rightharpoonup> bbox"

definition xform_boundingBox :: "obj \<Rightarrow> scene \<Rightarrow> error + bbox" where
  "xform_boundingBox object_name s =
     (case s object_name of None \<Rightarrow> Inl HostQueryFailure | Some b \<Rightarrow> Inr b)"

definition translate_bbox :: "real \<Rightarrow> real \<Rightarrow> real \<Rightarrow> bbox \<Rightarrow> bbox" where
  "translate_bbox dx dy dz b =
     \<lparr>xmin = xmin b + dx, ymin = ymin b + dy, zmin = zmin b + dz,
      xmax = xmax b + dx, ymax = ymax b + dy, zmax = zmax b + dz\<rparr>"

definition move_relative :: "real \<Rightarrow> real \<Rightarrow> real \<Rightarrow> obj \<Rightarrow> scene \<Rightarrow> error + scene" where
  "move_relative dx dy dz object_name s =
     (case s object_name of
        None \<Rightarrow> Inl HostQueryFailure
      | Some b \<Rightarrow> Inr (s(object_name \<mapsto> translate_bbox dx dy dz b)))"

subsection \<open>\<^verbatim>\<open>get_center_point\<close>\<close>

text \<open>
  The centre of the bounding box, with the y component replaced by \<open>ymax\<close> when the
  flags are exactly \<open>(1, 0)\<close> and by \<open>ymin\<close> when they are exactly \<open>(0, 1)\<close>. The flags
  are Python integers. The host returns floats, so \<^verbatim>\<open>/ 2\<close> is a true division.
\<close>

definition get_center_point :: "obj \<Rightarrow> int \<Rightarrow> int \<Rightarrow> scene \<Rightarrow> error + point3" where
  "get_center_point object_name top_flag bottom_flag s =
     (case xform_boundingBox object_name s of
        Inl e \<Rightarrow> Inl e
      | Inr bound_coord \<Rightarrow>
          (let center_coord =
                 ((xmin bound_coord + xmax bound_coord) / 2,
                  (ymin bound_coord + ymax bound_coord) / 2,
                  (zmin bound_coord + zmax bound_coord) / 2)
           in if top_flag = 1 \<and> bottom_flag = 0
              then Inr (px center_coord, ymax bound_coord, pz center_coord)
              else if top_flag = 0 \<and> bottom_flag = 1
              then Inr (px center_coord, ymin bound_coord, pz center_coord)
              else Inr center_coord))"

subsection \<open>\<^verbatim>\<open>create_stack\<close>\<close>

text \<open>
  The distance between the two points, componentwise, handed to one relative move.
\<close>

definition create_stack :: "obj \<Rightarrow> point3 \<Rightarrow> point3 \<Rightarrow> scene \<Rightarrow> error + scene" where
  "create_stack object_name bottom_center new_point s =
     (let dist = (px new_point - px bottom_center,
                  py new_point - py bottom_center,
                  pz new_point - pz bottom_center)
      in move_relative (px dist) (py dist) (pz dist) object_name s)"

subsection \<open>\<^verbatim>\<open>offset_objs_in_x\<close>\<close>

definition offset_objs_in_x :: "obj \<Rightarrow> obj \<Rightarrow> real \<Rightarrow> scene \<Rightarrow> error + scene" where
  "offset_objs_in_x obj_static obj_move offset_val s =
     (case get_center_point obj_static 0 0 s of Inl e \<Rightarrow> Inl e
      | Inr static_center_prev \<Rightarrow>
     (case get_center_point obj_move 0 0 s of Inl e \<Rightarrow> Inl e
      | Inr move_center_prev \<Rightarrow>
     (case move_relative (px static_center_prev - px move_center_prev) 0 0 obj_move s of
        Inl e \<Rightarrow> Inl e
      | Inr s1 \<Rightarrow>
     (case xform_boundingBox obj_static s1 of Inl e \<Rightarrow> Inl e
      | Inr static_bounds \<Rightarrow>
     (case get_center_point obj_static 0 0 s1 of Inl e \<Rightarrow> Inl e
      | Inr static_center_new \<Rightarrow>
     (case xform_boundingBox obj_move s1 of Inl e \<Rightarrow> Inl e
      | Inr move_bounds \<Rightarrow>
     (case get_center_point obj_move 0 0 s1 of Inl e \<Rightarrow> Inl e
      | Inr move_center_new \<Rightarrow>
          (let static_dist = xmax static_bounds - px static_center_new;
               move_dist = px move_center_new - xmin move_bounds;
               offset_to = offset_val + static_dist + move_dist
           in move_relative offset_to 0 0 obj_move s1))))))))"

subsection \<open>\<^verbatim>\<open>verify_args\<close> and \<^verbatim>\<open>stack_objs\<close>\<close>

text \<open>
  The argument is a list, as the docstring types it; an element of the list is an object
  reference or Python's \<^verbatim>\<open>None\<close>.
  \<^verbatim>\<open>verify_args\<close> returns \<^verbatim>\<open>None\<close> at the first element that is \<^verbatim>\<open>None\<close> and \<^verbatim>\<open>True\<close>
  when the loop runs out; the two Python results are \<open>None\<close> and \<open>Some True\<close>.
\<close>

fun verify_args :: "obj option list \<Rightarrow> bool option" where
  "verify_args [] = Some True"
| "verify_args (e # es) = (if e = None then None else verify_args es)"

text \<open>
  One pass of the loop body of \<^verbatim>\<open>stack_objs\<close> at index \<open>i\<close>: the top centre of element
  \<open>i\<close>, the bottom centre of element \<open>i + 1\<close>, and the move of element \<open>i + 1\<close>.
\<close>

definition stack_step :: "obj list \<Rightarrow> nat \<Rightarrow> scene \<Rightarrow> error + scene" where
  "stack_step arg_list i s =
     (case get_center_point (arg_list ! i) 1 0 s of Inl e \<Rightarrow> Inl e
      | Inr top_center \<Rightarrow>
     (case get_center_point (arg_list ! (i + 1)) 0 1 s of Inl e \<Rightarrow> Inl e
      | Inr bottom_center \<Rightarrow>
          create_stack (arg_list ! (i + 1)) bottom_center top_center s))"

text \<open>A \<^verbatim>\<open>for\<close> loop over indices whose body may raise: the first error ends it.\<close>

fun for_range :: "(nat \<Rightarrow> scene \<Rightarrow> error + scene) \<Rightarrow> nat list \<Rightarrow> scene \<Rightarrow> error + scene" where
  "for_range body [] s = Inr s"
| "for_range body (i # rest) s =
     (case body i s of Inl e \<Rightarrow> Inl e | Inr s' \<Rightarrow> for_range body rest s')"

text \<open>
  \<^verbatim>\<open>stack_objs\<close> returns \<^verbatim>\<open>None\<close> before any query when \<^verbatim>\<open>verify_args\<close> does, and \<^verbatim>\<open>True\<close>
  after the loop over \<^verbatim>\<open>range(len(arg_list) - 1)\<close>. For the empty list the range is
  \<^verbatim>\<open>range(-1)\<close>, which is empty, as is \<open>[0..<0 - 1]\<close> on natural numbers. Past the check
  every element is a reference, so reading it with \<^const>\<open>the\<close> is defined.
\<close>

definition stack_objs :: "obj option list \<Rightarrow> scene \<Rightarrow> error + (bool option \<times> scene)" where
  "stack_objs arg_list s =
     (if verify_args arg_list = None then Inr (None, s)
      else (case for_range (stack_step (map the arg_list)) [0..<length arg_list - 1] s of
              Inl e \<Rightarrow> Inl e
            | Inr s' \<Rightarrow> Inr (Some True, s')))"

text \<open>
  A sequence is assembled in a scene when, for every adjacent pair, both centre queries
  succeed and the top centre of element \<open>i\<close> is the bottom centre of element \<open>i + 1\<close>:
  the invariant of a stack in the specification's data model.
\<close>

definition assembled :: "obj list \<Rightarrow> scene \<Rightarrow> bool" where
  "assembled arg_list s =
     (\<forall>i \<in> {0..<length arg_list - 1}.
        case (get_center_point (arg_list ! i) 1 0 s,
              get_center_point (arg_list ! (i + 1)) 0 1 s) of
          (Inr top_center, Inr bottom_center) \<Rightarrow> top_center = bottom_center
        | _ \<Rightarrow> False)"

subsection \<open>The floating-point arithmetic of the code\<close>




text \<open>
  Modelled from the spec: the host's relative move in floating-point arithmetic
  (\<^verbatim>\<open>maya.cmds\<close> is not part of the repository). Each coordinate of the moved box is the
  rounded sum of the coordinate and the distance.
\<close>

definition translate_bbox_fl :: "(real \<Rightarrow> real) \<Rightarrow> real \<Rightarrow> real \<Rightarrow> real \<Rightarrow> bbox \<Rightarrow> bbox" where
  "translate_bbox_fl rnd dx dy dz b =
     \<lparr>xmin = rnd (xmin b + dx), ymin = rnd (ymin b + dy), zmin = rnd (zmin b + dz),
      xmax = rnd (xmax b + dx), ymax = rnd (ymax b + dy), zmax = rnd (zmax b + dz)\<rparr>"

definition move_relative_fl ::
    "(real \<Rightarrow> real) \<Rightarrow> real \<Rightarrow> real \<Rightarrow> real \<Rightarrow> obj \<Rightarrow> scene \<Rightarrow> error + scene" where
  "move_relative_fl rnd dx dy dz object_name s =
     (case s object_name of
        None \<Rightarrow> Inl HostQueryFailure
      | Some b \<Rightarrow> Inr (s(object_name \<mapsto> translate_bbox_fl rnd dx dy dz b)))"

text \<open>
  The functions of \<^verbatim>\<open>stacker.py\<close> once more, with the result of every arithmetic
  operation of the code rounded by \<open>rnd\<close>: the sum and the halving in
  \<^verbatim>\<open>get_center_point\<close>, the three differences in \<^verbatim>\<open>create_stack\<close>, and the difference of
  the centres, the two half widths and the two sums of \<^verbatim>\<open>offset_to\<close> in
  \<^verbatim>\<open>offset_objs_in_x\<close>. With the identity for \<open>rnd\<close> these are the functions above.
\<close>

definition get_center_point_fl ::
    "(real \<Rightarrow> real) \<Rightarrow> obj \<Rightarrow> int \<Rightarrow> int \<Rightarrow> scene \<Rightarrow> error + point3" where
  "get_center_point_fl rnd object_name top_flag bottom_flag s =
     (case xform_boundingBox object_name s of
        Inl e \<Rightarrow> Inl e
      | Inr bound_coord \<Rightarrow>
          (let center_coord =
                 (rnd (rnd (xmin bound_coord + xmax bound_coord) / 2),
                  rnd (rnd (ymin bound_coord + ymax bound_coord) / 2),
                  rnd (rnd (zmin bound_coord + zmax bound_coord) / 2))
           in if top_flag = 1 \<and> bottom_flag = 0
              then Inr (px center_coord, ymax bound_coord, pz center_coord)
              else if top_flag = 0 \<and> bottom_flag = 1
              then Inr (px center_coord, ymin bound_coord, pz center_coord)
              else Inr center_coord))"

definition create_stack_fl ::
    "(real \<Rightarrow> real) \<Rightarrow> obj \<Rightarrow> point3 \<Rightarrow> point3 \<Rightarrow> scene \<Rightarrow> error + scene" where
  "create_stack_fl rnd object_name bottom_center new_point s =
     (let dist = (rnd (px new_point - px bottom_center),
                  rnd (py new_point - py bottom_center),
                  rnd (pz new_point - pz bottom_center))
      in move_relative_fl rnd (px dist) (py dist) (pz dist) object_name s)"

definition offset_objs_in_x_fl ::
    "(real \<Rightarrow> real) \<Rightarrow> obj \<Rightarrow> obj \<Rightarrow> real \<Rightarrow> scene \<Rightarrow> error + scene" where
  "offset_objs_in_x_fl rnd obj_static obj_move offset_val s =
     (case get_center_point_fl rnd obj_static 0 0 s of Inl e \<Rightarrow> Inl e
      | Inr static_center_prev \<Rightarrow>
     (case get_center_point_fl rnd obj_move 0 0 s of Inl e \<Rightarrow> Inl e
      | Inr move_center_prev \<Rightarrow>
     (case move_relative_fl rnd (rnd (px static_center_prev - px move_center_prev)) 0 0 obj_move s of
        Inl e \<Rightarrow> Inl e
      | Inr s1 \<Rightarrow>
     (case xform_boundingBox obj_static s1 of Inl e \<Rightarrow> Inl e
      | Inr static_bounds \<Rightarrow>
     (case get_center_point_fl rnd obj_static 0 0 s1 of Inl e \<Rightarrow> Inl e
      | Inr static_center_new \<Rightarrow>
     (case xform_boundingBox obj_move s1 of Inl e \<Rightarrow> Inl e
      | Inr move_bounds \<Rightarrow>
     (case get_center_point_fl rnd obj_move 0 0 s1 of Inl e \<Rightarrow> Inl e
      | Inr move_center_new \<Rightarrow>
          (let static_dist = rnd (xmax static_bounds - px static_center_new);
               move_dist = rnd (px move_center_new - xmin move_bounds);
               offset_to = rnd (rnd (offset_val + static_dist) + move_dist)
           in move_relative_fl rnd offset_to 0 0 obj_move s1))))))))"

definition stack_step_fl :: "(real \<Rightarrow> real) \<Rightarrow> obj list \<Rightarrow> nat \<Rightarrow> scene \<Rightarrow> error + scene" where
  "stack_step_fl rnd arg_list i s =
     (case get_center_point_fl rnd (arg_list ! i) 1 0 s of Inl e \<Rightarrow> Inl e
      | Inr top_center \<Rightarrow>
     (case get_center_point_fl rnd (arg_list ! (i + 1)) 0 1 s of Inl e \<Rightarrow> Inl e
      | Inr bottom_center \<Rightarrow>
          create_stack_fl rnd (arg_list ! (i + 1)) bottom_center top_center s))"

definition stack_objs_fl ::
    "(real \<Rightarrow> real) \<Rightarrow> obj option list \<Rightarrow> scene \<Rightarrow> error + (bool option \<times> scene)" where
  "stack_objs_fl rnd arg_list s =
     (if verify_args arg_list = None then Inr (None, s)
      else (case for_range (stack_step_fl rnd (map the arg_list)) [0..<length arg_list - 1] s of
              Inl e \<Rightarrow> Inl e
            | Inr s' \<Rightarrow> Inr (Some True, s')))"



subsection \<open>\<^verbatim>\<open>read_stack_xml\<close>\<close>

text \<open>
  An element of the parsed document, as \<^verbatim>\<open>xml.etree.ElementTree\<close> gives it: its tag, its
  attribute dictionary and its child elements in document order.
\<close>

datatype element = Element (tag: string) (attrib: "(string \<times> string) list") (getchildren: "element list")

text \<open>
  The file system as the function sees it: \<^verbatim>\<open>os.path.isfile\<close>, and \<^verbatim>\<open>et.parse\<close>
  followed by \<^verbatim>\<open>getroot\<close>, which raises on a file that is not XML.
\<close>

record filesystem =
  isfile :: "string \<Rightarrow> bool"
  parse :: "string \<Rightarrow> error + element"

text \<open>
  The result is a dictionary of dictionaries of dictionaries of strings.
  \<^verbatim>\<open>Autovivification.__getitem__\<close> returns the entry under a key, creating an empty
  dictionary there when the key is missing.
\<close>

type_synonym contents = "string \<rightharpoonup> (string \<rightharpoonup> (string \<rightharpoonup> string))"

definition getitem :: "(string \<rightharpoonup> (string \<rightharpoonup> 'v)) \<Rightarrow> string \<Rightarrow> (string \<rightharpoonup> 'v)" where
  "getitem d item = (case d item of None \<Rightarrow> Map.empty | Some v \<Rightarrow> v)"

text \<open>
  The assignment \<^verbatim>\<open>contents[k1][k2][k3] = value\<close>: two \<^verbatim>\<open>__getitem__\<close> calls, each of
  which leaves its (possibly new) dictionary stored under its key, and a plain store.
\<close>

definition setitem3 :: "contents \<Rightarrow> string \<Rightarrow> string \<Rightarrow> string \<Rightarrow> string \<Rightarrow> contents" where
  "setitem3 contents k1 k2 k3 v =
     (let d1 = getitem contents k1;
          d2 = getitem d1 k2
      in contents(k1 \<mapsto> d1(k2 \<mapsto> d2(k3 \<mapsto> v))))"

text \<open>
  The three nested loops. \<^verbatim>\<open>comp.attrib['value']\<close> raises \<^verbatim>\<open>KeyError\<close> on an element
  with no attribute \<^verbatim>\<open>value\<close>, which ends the function.
\<close>

fun for_comp :: "string \<Rightarrow> string \<Rightarrow> element list \<Rightarrow> contents \<Rightarrow> error + contents" where
  "for_comp stack_tag i_tag [] contents = Inr contents"
| "for_comp stack_tag i_tag (comp_elem # point) contents =
     (case map_of (attrib comp_elem) ''value'' of
        None \<Rightarrow> Inl KeyError
      | Some v \<Rightarrow> for_comp stack_tag i_tag point (setitem3 contents stack_tag i_tag (tag comp_elem) v))"

fun for_i :: "string \<Rightarrow> element list \<Rightarrow> contents \<Rightarrow> error + contents" where
  "for_i stack_tag [] contents = Inr contents"
| "for_i stack_tag (i # vector) contents =
     (case for_comp stack_tag (tag i) (getchildren i) contents of
        Inl e \<Rightarrow> Inl e
      | Inr contents' \<Rightarrow> for_i stack_tag vector contents')"

fun for_stack :: "element list \<Rightarrow> contents \<Rightarrow> error + contents" where
  "for_stack [] contents = Inr contents"
| "for_stack (stack # groups) contents =
     (case for_i (tag stack) (getchildren stack) contents of
        Inl e \<Rightarrow> Inl e
      | Inr contents' \<Rightarrow> for_stack groups contents')"

text \<open>The Python result is \<^verbatim>\<open>None\<close> or the dictionary.\<close>

definition read_stack_xml :: "filesystem \<Rightarrow> string \<Rightarrow> error + contents option" where
  "read_stack_xml fs file_path =
     (if \<not> isfile fs file_path then Inr None
      else (case parse fs file_path of
              Inl e \<Rightarrow> Inl e
            | Inr root_elem \<Rightarrow>
                (case for_stack (getchildren root_elem) Map.empty of
                   Inl e \<Rightarrow> Inl e
                 | Inr contents \<Rightarrow> Inr (Some contents))))"

text \<open>
  For stating what the dictionary holds: the lookup \<^verbatim>\<open>contents[k1][k2][k3]\<close> of a plain
  dictionary, the entries of a document in the order the loops visit them, and the
  documents in which every third-level element has the attribute \<^verbatim>\<open>value\<close>.
\<close>

definition lookup3 :: "contents \<Rightarrow> string \<Rightarrow> string \<Rightarrow> string \<Rightarrow> string option" where
  "lookup3 contents k1 k2 k3 =
     (case contents k1 of
        None \<Rightarrow> None
      | Some d1 \<Rightarrow> (case d1 k2 of None \<Rightarrow> None | Some d2 \<Rightarrow> d2 k3))"

definition comp_entries :: "string \<Rightarrow> string \<Rightarrow> element list \<Rightarrow> ((string \<times> string \<times> string) \<times> string) list" where
  "comp_entries stack_tag i_tag point =
     concat (map (\<lambda>comp_elem. case map_of (attrib comp_elem) ''value'' of
                            None \<Rightarrow> []
                          | Some v \<Rightarrow> [((stack_tag, i_tag, tag comp_elem), v)]) point)"

definition i_entries :: "string \<Rightarrow> element list \<Rightarrow> ((string \<times> string \<times> string) \<times> string) list" where
  "i_entries stack_tag vector =
     concat (map (\<lambda>i. comp_entries stack_tag (tag i) (getchildren i)) vector)"

definition entries :: "element \<Rightarrow> ((string \<times> string \<times> string) \<times> string) list" where
  "entries root_elem = concat (map (\<lambda>stack. i_entries (tag stack) (getchildren stack)) (getchildren root_elem))"

definition has_values :: "element \<Rightarrow> bool" where
  "has_values root_elem =
     list_all (\<lambda>stack. list_all (\<lambda>i. list_all (\<lambda>comp_elem. map_of (attrib comp_elem) ''value'' \<noteq> None)
                                     (getchildren i))
                         (getchildren stack))
              (getchildren root_elem)"

text \<open>Storing a list of entries one after the other, first to last.\<close>

definition store_all :: "((string \<times> string \<times> string) \<times> string) list \<Rightarrow> contents \<Rightarrow> contents" where
  "store_all es contents = fold (\<lambda>((k1, k2, k3), v) c. setitem3 c k1 k2 k3 v) es contents"

text \<open>
  The dictionary that a list of entries describes: a group key is present when an entry
  has it, an object key is present under a group when an entry has both, and the
  innermost dictionary holds, for a third key, the value of the last entry with the
  three keys.
\<close>

definition group_keys :: "((string \<times> string \<times> string) \<times> string) list \<Rightarrow> string set" where
  "group_keys es = set (map (\<lambda>e. fst (fst e)) es)"

definition object_keys :: "((string \<times> string \<times> string) \<times> string) list \<Rightarrow> string \<Rightarrow> string set" where
  "object_keys es k1 = set (map (\<lambda>e. fst (snd (fst e))) (filter (\<lambda>e. fst (fst e) = k1) es))"

definition dict_of :: "((string \<times> string \<times> string) \<times> string) list \<Rightarrow> contents" where
  "dict_of es =
     (\<lambda>k1. if k1 \<in> group_keys es
           then Some (\<lambda>k2. if k2 \<in> object_keys es k1
                            then Some (\<lambda>k3. map_of (rev es) (k1, k2, k3))
                            else None)
           else None)"

subsection \<open>Example scenes and documents\<close>

text \<open>The objects of the specification's worked example.\<close>

definition scene_A :: scene where
  "scene_A = [''A'' \<mapsto> \<lparr>xmin = 0, ymin = 0, zmin = 0, xmax = 2, ymax = 2, zmax = 2\<rparr>]"

definition scene_AB :: scene where
  "scene_AB = [''A'' \<mapsto> \<lparr>xmin = 0, ymin = 0, zmin = 0, xmax = 2, ymax = 2, zmax = 2\<rparr>,
               ''B'' \<mapsto> \<lparr>xmin = 0, ymin = 0, zmin = 0, xmax = 2, ymax = 1, zmax = 2\<rparr>]"

text \<open>The same two objects with \<open>B\<close> resting on \<open>A\<close>.\<close>

definition scene_AB_stacked :: scene where
  "scene_AB_stacked =
     [''A'' \<mapsto> \<lparr>xmin = 0, ymin = 0, zmin = 0, xmax = 2, ymax = 2, zmax = 2\<rparr>,
      ''B'' \<mapsto> \<lparr>xmin = 0, ymin = 2, zmin = 0, xmax = 2, ymax = 3, zmax = 2\<rparr>]"


text \<open>
  A document laid out as the specification describes it,
  \<^verbatim>\<open><root><stack001><second_bottom1 tx="0" ty="1.5" tz="0"/></stack001></root>\<close>,
  and one laid out as the loops read it,
  \<^verbatim>\<open><root><maya_stacks><stack001><tx value="0"/><ty value="1.5"/><tz value="0"/></stack001></maya_stacks></root>\<close>.
\<close>

definition doc_attributes :: element where
  "doc_attributes =
     Element ''root'' []
       [Element ''stack001'' []
          [Element ''second_bottom1'' [(''tx'', ''0''), (''ty'', ''1.5''), (''tz'', ''0'')] []]]"

definition doc_children :: element where
  "doc_children =
     Element ''root'' []
       [Element ''maya_stacks'' []
          [Element ''stack001'' []
             [Element ''tx'' [(''value'', ''0'')] [],
              Element ''ty'' [(''value'', ''1.5'')] [],
              Element ''tz'' [(''value'', ''0'')] []]]]"

definition fs_of :: "element \<Rightarrow> filesystem" where
  "fs_of root_elem =
     \<lparr>isfile = (\<lambda>file_path. file_path = ''stack.xml''),
      parse = (\<lambda>file_path. if file_path = ''stack.xml'' then Inr root_elem else Inl ParseError)\<rparr>"

section \<open>The host queries and the centre point\<close>

lemma xform_boundingBox_Some:
  "s object_name = Some b \<Longrightarrow> xform_boundingBox object_name s = Inr b"
  by (simp add: xform_boundingBox_def)

lemma xform_boundingBox_InrD:
  "xform_boundingBox object_name s = Inr b \<Longrightarrow> s object_name = Some b"
  by (simp add: xform_boundingBox_def split: option.splits)

lemma move_relative_Some:
  "s object_name = Some b \<Longrightarrow>
   move_relative dx dy dz object_name s = Inr (s(object_name \<mapsto> translate_bbox dx dy dz b))"
  by (simp add: move_relative_def)

lemma get_center_point_Inr:
  "s object_name = Some b \<Longrightarrow>
   get_center_point object_name top_flag bottom_flag s =
     Inr ((xmin b + xmax b) / 2,
          (if top_flag = 1 \<and> bottom_flag = 0 then ymax b
           else if top_flag = 0 \<and> bottom_flag = 1 then ymin b
           else (ymin b + ymax b) / 2),
          (zmin b + zmax b) / 2)"
  by (simp add: get_center_point_def xform_boundingBox_def px_def pz_def Let_def)

lemma get_center_point_Inl:
  "s object_name = None \<Longrightarrow>
   get_center_point object_name top_flag bottom_flag s = Inl HostQueryFailure"
  by (simp add: get_center_point_def xform_boundingBox_def)

lemma get_center_point_exists:
  "get_center_point object_name top_flag bottom_flag s = Inr p \<Longrightarrow> \<exists>b. s object_name = Some b"
  by (cases "s object_name") (simp_all add: get_center_point_Inl)

lemma get_center_point_upd_other:
  "object_name \<noteq> n \<Longrightarrow>
   get_center_point object_name top_flag bottom_flag (s(n \<mapsto> b)) =
   get_center_point object_name top_flag bottom_flag s"
  by (simp add: get_center_point_def xform_boundingBox_def)

text \<open>
  C4. For an object whose bounding box is \<open>[x0, y0, z0, x1, y1, z1]\<close>,
  \<^verbatim>\<open>get_center_point\<close> returns \<open>x = (x0 + x1) / 2\<close> and \<open>z = (z0 + z1) / 2\<close> whatever
  the flags are, and \<open>y = (y0 + y1) / 2\<close> in CENTER mode (flags \<open>0, 0\<close>), \<open>y = y1\<close> in TOP
  mode (flags \<open>1, 0\<close>), \<open>y = y0\<close> in BOTTOM mode (flags \<open>0, 1\<close>).
\<close>

theorem get_center_point_modes:
  assumes "xform_boundingBox object_name s = Inr b"
  shows "(\<exists>y. get_center_point object_name top_flag bottom_flag s =
               Inr ((xmin b + xmax b) / 2, y, (zmin b + zmax b) / 2))
       \<and> get_center_point object_name 0 0 s =
           Inr ((xmin b + xmax b) / 2, (ymin b + ymax b) / 2, (zmin b + zmax b) / 2)
       \<and> get_center_point object_name 1 0 s =
           Inr ((xmin b + xmax b) / 2, ymax b, (zmin b + zmax b) / 2)
       \<and> get_center_point object_name 0 1 s =
           Inr ((xmin b + xmax b) / 2, ymin b, (zmin b + zmax b) / 2)"
proof -
  from assms have sb: "s object_name = Some b"
    by (rule xform_boundingBox_InrD)
  show ?thesis
    using sb by (simp add: get_center_point_Inr)
qed

theorem get_center_point_modes_witness:
  "get_center_point ''A'' 0 0 scene_A = Inr (1, 1, 1)
   \<and> get_center_point ''A'' 1 0 scene_A = Inr (1, 2, 1)
   \<and> get_center_point ''A'' 0 1 scene_A = Inr (1, 0, 1)"
proof -
  have q: "xform_boundingBox ''A'' scene_A =
             Inr \<lparr>xmin = 0, ymin = 0, zmin = 0, xmax = 2, ymax = 2, zmax = 2\<rparr>"
    by (simp add: xform_boundingBox_def scene_A_def)
  show ?thesis
    using get_center_point_modes [OF q, of 0 0] by simp
qed

text \<open>
  C9. Every flag combination other than exactly \<open>(1, 0)\<close> and \<open>(0, 1)\<close>, both flags
  \<open>1\<close> and both flags \<open>0\<close> among them, makes \<^verbatim>\<open>get_center_point\<close> return the full
  geometric centre of the bounding box; it does not fail.
\<close>

theorem get_center_point_other_flags:
  assumes "xform_boundingBox object_name s = Inr b"
    and "\<not> (top_flag = 1 \<and> bottom_flag = 0)"
    and "\<not> (top_flag = 0 \<and> bottom_flag = 1)"
  shows "get_center_point object_name top_flag bottom_flag s =
           Inr ((xmin b + xmax b) / 2, (ymin b + ymax b) / 2, (zmin b + zmax b) / 2)"
proof -
  from assms(1) have sb: "s object_name = Some b"
    by (rule xform_boundingBox_InrD)
  from sb assms(2,3) show ?thesis
    by (auto simp add: get_center_point_Inr)
qed

theorem get_center_point_other_flags_witness:
  "get_center_point ''A'' 1 1 scene_A = Inr (1, 1, 1)
   \<and> get_center_point ''A'' 0 0 scene_A = Inr (1, 1, 1)
   \<and> get_center_point ''A'' 2 (- 1) scene_A = Inr (1, 1, 1)"
proof -
  have q: "xform_boundingBox ''A'' scene_A =
             Inr \<lparr>xmin = 0, ymin = 0, zmin = 0, xmax = 2, ymax = 2, zmax = 2\<rparr>"
    by (simp add: xform_boundingBox_def scene_A_def)
  show ?thesis
    using get_center_point_other_flags [OF q, of 1 1]
          get_center_point_other_flags [OF q, of 0 0]
          get_center_point_other_flags [OF q, of 2 "- 1"]
    by simp
qed

section \<open>Aligning one object\<close>

text \<open>
  C5. For an object of the scene and any two points, \<^verbatim>\<open>create_stack\<close> translates the
  object by exactly \<open>to_point - from_point\<close>, componentwise: both corners of its box move
  by that vector, so its extent is kept, and the rest of the scene is as it was.
\<close>

theorem create_stack_translates:
  assumes "xform_boundingBox object_name s = Inr b"
  shows "create_stack object_name from_point to_point s =
           Inr (s(object_name \<mapsto>
             \<lparr>xmin = xmin b + (px to_point - px from_point),
              ymin = ymin b + (py to_point - py from_point),
              zmin = zmin b + (pz to_point - pz from_point),
              xmax = xmax b + (px to_point - px from_point),
              ymax = ymax b + (py to_point - py from_point),
              zmax = zmax b + (pz to_point - pz from_point)\<rparr>))"
proof -
  from assms have sb: "s object_name = Some b"
    by (rule xform_boundingBox_InrD)
  show ?thesis
    using sb
    by (simp add: create_stack_def Let_def move_relative_Some translate_bbox_def
        px_def py_def pz_def)
qed

theorem create_stack_translates_witness:
  "create_stack ''A'' (1, 0, 1) (0, 5, 0) scene_A =
     Inr (scene_A(''A'' \<mapsto> \<lparr>xmin = - 1, ymin = 5, zmin = - 1, xmax = 1, ymax = 7, zmax = 1\<rparr>))"
proof -
  have q: "xform_boundingBox ''A'' scene_A =
             Inr \<lparr>xmin = 0, ymin = 0, zmin = 0, xmax = 2, ymax = 2, zmax = 2\<rparr>"
    by (simp add: xform_boundingBox_def scene_A_def)
  show ?thesis
    using create_stack_translates [OF q, of "(1, 0, 1)" "(0, 5, 0)"]
    by (simp add: px_def py_def pz_def)
qed

text \<open>
  Aligning from a centre point of the object itself puts that centre point, queried with
  the same flags, at the target.
\<close>

lemma create_stack_aligns:
  assumes "get_center_point object_name top_flag bottom_flag s = Inr from_point"
  shows "\<exists>s'. create_stack object_name from_point to_point s = Inr s'
           \<and> get_center_point object_name top_flag bottom_flag s' = Inr to_point"
proof -
  from assms obtain b where b: "s object_name = Some b"
    using get_center_point_exists by blast
  obtain tx ty tz where t: "to_point = (tx, ty, tz)"
    by (cases to_point) auto
  from assms b have f: "from_point = ((xmin b + xmax b) / 2,
          (if top_flag = 1 \<and> bottom_flag = 0 then ymax b
           else if top_flag = 0 \<and> bottom_flag = 1 then ymin b
           else (ymin b + ymax b) / 2),
          (zmin b + zmax b) / 2)"
    by (simp add: get_center_point_Inr)
  show ?thesis
    using b
    by (simp add: create_stack_def Let_def move_relative_Some get_center_point_Inr
        translate_bbox_def px_def py_def pz_def t f field_simps)
qed

section \<open>Separating two objects along x\<close>

text \<open>
  With two different objects, the first move puts the centre of the moving box over the
  centre of the static one and the second move shifts it by the gap and the two half
  widths; the moving box ends with its \<open>xmin\<close> at the static \<open>xmax\<close> plus the gap.
\<close>

lemma offset_objs_in_x_result:
  assumes "obj_static \<noteq> obj_move" "s obj_static = Some bs" "s obj_move = Some bm"
  shows "offset_objs_in_x obj_static obj_move offset_val s =
     Inr (s(obj_move \<mapsto>
            \<lparr>xmin = xmax bs + offset_val, ymin = ymin bm, zmin = zmin bm,
             xmax = xmax bs + offset_val + (xmax bm - xmin bm),
             ymax = ymax bm, zmax = zmax bm\<rparr>))"
proof -
  define dx where "dx = (xmin bs + xmax bs) / 2 - (xmin bm + xmax bm) / 2"
  define s1 where "s1 = s(obj_move \<mapsto> translate_bbox dx 0 0 bm)"
  have c0: "get_center_point obj_static 0 0 s =
              Inr ((xmin bs + xmax bs) / 2, (ymin bs + ymax bs) / 2, (zmin bs + zmax bs) / 2)"
    using assms(2) by (simp add: get_center_point_Inr)
  have c1: "get_center_point obj_move 0 0 s =
              Inr ((xmin bm + xmax bm) / 2, (ymin bm + ymax bm) / 2, (zmin bm + zmax bm) / 2)"
    using assms(3) by (simp add: get_center_point_Inr)
  have m1: "move_relative dx 0 0 obj_move s = Inr s1"
    using assms(3) by (simp add: move_relative_Some s1_def)
  have st1: "s1 obj_static = Some bs"
    using assms(1,2) by (simp add: s1_def)
  have mv1: "s1 obj_move = Some (translate_bbox dx 0 0 bm)"
    by (simp add: s1_def)
  have c2: "get_center_point obj_static 0 0 s1 =
              Inr ((xmin bs + xmax bs) / 2, (ymin bs + ymax bs) / 2, (zmin bs + zmax bs) / 2)"
    using st1 by (simp add: get_center_point_Inr)
  have c3: "get_center_point obj_move 0 0 s1 =
              Inr ((xmin bm + dx + (xmax bm + dx)) / 2, (ymin bm + ymax bm) / 2,
                   (zmin bm + zmax bm) / 2)"
    using mv1 by (simp add: get_center_point_Inr translate_bbox_def)
  have m2: "move_relative off 0 0 obj_move s1 =
              Inr (s(obj_move \<mapsto> translate_bbox off 0 0 (translate_bbox dx 0 0 bm)))" for off
    using mv1 by (simp add: move_relative_Some s1_def)
  have eq: "translate_bbox
              (offset_val + (xmax bs - (xmin bs + xmax bs) / 2)
                + ((xmin bm + dx + (xmax bm + dx)) / 2 - (xmin bm + dx))) 0 0
              (translate_bbox dx 0 0 bm) =
            \<lparr>xmin = xmax bs + offset_val, ymin = ymin bm, zmin = zmin bm,
             xmax = xmax bs + offset_val + (xmax bm - xmin bm),
             ymax = ymax bm, zmax = zmax bm\<rparr>"
    by (simp add: translate_bbox_def dx_def field_simps)
  have x1: "xform_boundingBox obj_static s1 = Inr bs"
    using st1 by (simp add: xform_boundingBox_def)
  have x2: "xform_boundingBox obj_move s1 = Inr (translate_bbox dx 0 0 bm)"
    using mv1 by (simp add: xform_boundingBox_def)
  have "offset_objs_in_x obj_static obj_move offset_val s =
          move_relative
            (offset_val + (xmax bs - (xmin bs + xmax bs) / 2)
              + ((xmin bm + dx + (xmax bm + dx)) / 2 - (xmin bm + dx))) 0 0 obj_move s1"
    unfolding offset_objs_in_x_def
    by (simp add: c0 c1 px_def m1 [unfolded dx_def] x1 x2 c2 c3 Let_def translate_bbox_def)
  then show ?thesis
    by (simp only: m2 eq)
qed

text \<open>
  Whether or not the two references name the same object, the function issues two
  relative moves, both on \<open>obj_move\<close> and both along x only.
\<close>

lemma offset_objs_in_x_two_moves:
  assumes "s obj_static = Some bs" "s obj_move = Some bm"
  shows "\<exists>dx1 dx2 s1. move_relative dx1 0 0 obj_move s = Inr s1
           \<and> offset_objs_in_x obj_static obj_move offset_val s = move_relative dx2 0 0 obj_move s1"
proof -
  define dx where "dx = (xmin bs + xmax bs) / 2 - (xmin bm + xmax bm) / 2"
  define s1 where "s1 = s(obj_move \<mapsto> translate_bbox dx 0 0 bm)"
  have c0: "get_center_point obj_static 0 0 s =
              Inr ((xmin bs + xmax bs) / 2, (ymin bs + ymax bs) / 2, (zmin bs + zmax bs) / 2)"
    using assms(1) by (simp add: get_center_point_Inr)
  have c1: "get_center_point obj_move 0 0 s =
              Inr ((xmin bm + xmax bm) / 2, (ymin bm + ymax bm) / 2, (zmin bm + zmax bm) / 2)"
    using assms(2) by (simp add: get_center_point_Inr)
  have m1: "move_relative dx 0 0 obj_move s = Inr s1"
    using assms(2) by (simp add: move_relative_Some s1_def)
  obtain bs1 where st1: "s1 obj_static = Some bs1"
    using assms(1) by (cases "obj_static = obj_move") (simp_all add: s1_def)
  obtain bm1 where mv1: "s1 obj_move = Some bm1"
    by (simp add: s1_def)
  have x1: "xform_boundingBox obj_static s1 = Inr bs1"
    using st1 by (simp add: xform_boundingBox_def)
  have x2: "xform_boundingBox obj_move s1 = Inr bm1"
    using mv1 by (simp add: xform_boundingBox_def)
  have c2: "get_center_point obj_static 0 0 s1 =
              Inr ((xmin bs1 + xmax bs1) / 2, (ymin bs1 + ymax bs1) / 2, (zmin bs1 + zmax bs1) / 2)"
    using st1 by (simp add: get_center_point_Inr)
  have c3: "get_center_point obj_move 0 0 s1 =
              Inr ((xmin bm1 + xmax bm1) / 2, (ymin bm1 + ymax bm1) / 2, (zmin bm1 + zmax bm1) / 2)"
    using mv1 by (simp add: get_center_point_Inr)
  have "offset_objs_in_x obj_static obj_move offset_val s =
          move_relative
            (offset_val + (xmax bs1 - (xmin bs1 + xmax bs1) / 2)
              + ((xmin bm1 + xmax bm1) / 2 - xmin bm1)) 0 0 obj_move s1"
    unfolding offset_objs_in_x_def
    by (simp add: c0 c1 px_def m1 [unfolded dx_def] x1 x2 c2 c3 Let_def)
  with m1 show ?thesis by blast
qed

text \<open>
  In exact arithmetic, for two different objects of the scene and every gap,
  \<^verbatim>\<open>offset_objs_in_x\<close> leaves the static box as it was and ends with the moving box's
  \<open>xmin\<close> minus the static box's \<open>xmax\<close> equal to the gap.
\<close>

lemma offset_objs_in_x_gap_exact:
  assumes "obj_static \<noteq> obj_move"
    and "xform_boundingBox obj_static s = Inr bs"
    and "xform_boundingBox obj_move s = Inr bm"
  shows "\<exists>s' bm'. offset_objs_in_x obj_static obj_move offset_val s = Inr s'
           \<and> xform_boundingBox obj_static s' = Inr bs
           \<and> xform_boundingBox obj_move s' = Inr bm'
           \<and> xmin bm' - xmax bs = offset_val"
proof -
  from assms(2,3) have sb: "s obj_static = Some bs" "s obj_move = Some bm"
    by (simp_all add: xform_boundingBox_InrD)
  show ?thesis
    using assms(1) sb
    by (simp add: offset_objs_in_x_result [OF assms(1) sb] xform_boundingBox_def)
qed

text \<open>
  C8, as the code has it. On two objects of the scene \<^verbatim>\<open>offset_objs_in_x\<close> issues two
  relative moves, both on the moving object and both with \<open>dy = 0\<close> and \<open>dz = 0\<close>. The y
  and z extent of the moving object and every other object of the scene are as before;
  so is the box of the static object when it is a different object.
\<close>

theorem offset_objs_in_x_frame:
  assumes "xform_boundingBox obj_static s = Inr bs"
    and "xform_boundingBox obj_move s = Inr bm"
  shows "\<exists>dx1 dx2 s1 s' bm'.
           move_relative dx1 0 0 obj_move s = Inr s1
         \<and> move_relative dx2 0 0 obj_move s1 = Inr s'
         \<and> offset_objs_in_x obj_static obj_move offset_val s = Inr s'
         \<and> xform_boundingBox obj_move s' = Inr bm'
         \<and> ymin bm' = ymin bm \<and> ymax bm' = ymax bm
         \<and> zmin bm' = zmin bm \<and> zmax bm' = zmax bm
         \<and> (\<forall>n. n \<noteq> obj_move \<longrightarrow> s' n = s n)
         \<and> (obj_static \<noteq> obj_move \<longrightarrow> xform_boundingBox obj_static s' = Inr bs)"
proof -
  from assms have sb: "s obj_static = Some bs" "s obj_move = Some bm"
    by (simp_all add: xform_boundingBox_InrD)
  from offset_objs_in_x_two_moves [OF sb, of offset_val] obtain dx1 dx2 s1 where
    m1: "move_relative dx1 0 0 obj_move s = Inr s1" and
    off: "offset_objs_in_x obj_static obj_move offset_val s = move_relative dx2 0 0 obj_move s1"
    by blast
  from m1 sb(2) have s1: "s1 = s(obj_move \<mapsto> translate_bbox dx1 0 0 bm)"
    by (simp add: move_relative_def)
  define bm' where "bm' = translate_bbox dx2 0 0 (translate_bbox dx1 0 0 bm)"
  define s' where "s' = s1(obj_move \<mapsto> bm')"
  have m2: "move_relative dx2 0 0 obj_move s1 = Inr s'"
    by (simp add: move_relative_def s1 s'_def bm'_def)
  have "xform_boundingBox obj_move s' = Inr bm'"
    by (simp add: xform_boundingBox_def s'_def)
  moreover have "ymin bm' = ymin bm \<and> ymax bm' = ymax bm \<and> zmin bm' = zmin bm \<and> zmax bm' = zmax bm"
    by (simp add: bm'_def translate_bbox_def)
  moreover have "\<forall>n. n \<noteq> obj_move \<longrightarrow> s' n = s n"
    by (simp add: s'_def s1)
  moreover have "obj_static \<noteq> obj_move \<longrightarrow> xform_boundingBox obj_static s' = Inr bs"
    using sb(1) by (simp add: xform_boundingBox_def s'_def s1)
  ultimately show ?thesis
    using m1 m2 off
    by (intro exI [of _ dx1] exI [of _ dx2] exI [of _ s1] exI [of _ s'] exI [of _ bm']) simp
qed

theorem offset_objs_in_x_frame_witness:
  "\<exists>s' bm'. offset_objs_in_x ''A'' ''B'' 1 scene_AB = Inr s'
      \<and> xform_boundingBox ''B'' s' = Inr bm'
      \<and> ymin bm' = 0 \<and> ymax bm' = 1 \<and> zmin bm' = 0 \<and> zmax bm' = 2
      \<and> xform_boundingBox ''A'' s' =
          Inr \<lparr>xmin = 0, ymin = 0, zmin = 0, xmax = 2, ymax = 2, zmax = 2\<rparr>"
proof -
  have qa: "xform_boundingBox ''A'' scene_AB =
              Inr \<lparr>xmin = 0, ymin = 0, zmin = 0, xmax = 2, ymax = 2, zmax = 2\<rparr>"
    by (simp add: xform_boundingBox_def scene_AB_def)
  have qb: "xform_boundingBox ''B'' scene_AB =
              Inr \<lparr>xmin = 0, ymin = 0, zmin = 0, xmax = 2, ymax = 1, zmax = 2\<rparr>"
    by (simp add: xform_boundingBox_def scene_AB_def)
  show ?thesis
    using offset_objs_in_x_frame [OF qa qb, of 1] by auto
qed

text \<open>
  C8 as stated fails when the static reference names the moving object: with \<open>B\<close> in
  both roles and gap 0 the moves go to the static object, whose box goes from
  \<open>[0, 2]\<close> to \<open>[2, 4]\<close> along x.
\<close>

theorem offset_objs_in_x_moves_static:
  "xform_boundingBox ''B'' scene_AB =
     Inr \<lparr>xmin = 0, ymin = 0, zmin = 0, xmax = 2, ymax = 1, zmax = 2\<rparr>
   \<and> offset_objs_in_x ''B'' ''B'' 0 scene_AB =
       Inr (scene_AB(''B'' \<mapsto> \<lparr>xmin = 2, ymin = 0, zmin = 0, xmax = 4, ymax = 1, zmax = 2\<rparr>))
   \<and> xform_boundingBox ''B''
        (scene_AB(''B'' \<mapsto> \<lparr>xmin = 2, ymin = 0, zmin = 0, xmax = 4, ymax = 1, zmax = 2\<rparr>)) =
       Inr \<lparr>xmin = 2, ymin = 0, zmin = 0, xmax = 4, ymax = 1, zmax = 2\<rparr>
   \<and> \<lparr>xmin = 2, ymin = 0, zmin = 0, xmax = 4, ymax = 1, zmax = 2\<rparr> \<noteq>
       \<lparr>xmin = 0::real, ymin = 0::real, zmin = 0::real, xmax = 2::real, ymax = 1::real, zmax = 2::real\<rparr>"
  by (simp add: offset_objs_in_x_def get_center_point_def xform_boundingBox_def move_relative_def
      translate_bbox_def scene_AB_def Let_def px_def)

section \<open>Stacking a sequence\<close>

subsection \<open>The argument check and the loop\<close>

lemma verify_args_None: "(verify_args arg_list = None) = (None \<in> set arg_list)"
  by (induction arg_list) auto

lemma verify_args_map_Some: "verify_args (map Some arg_list) = Some True"
  by (induction arg_list) auto

lemma map_the_map_Some: "map the (map Some arg_list) = arg_list"
  by (induction arg_list) auto

text \<open>On a list of references the check passes and the loop runs.\<close>

lemma stack_objs_map_Some:
  "stack_objs (map Some arg_list) s =
     (case for_range (stack_step arg_list) [0..<length arg_list - 1] s of
        Inl e \<Rightarrow> Inl e
      | Inr s' \<Rightarrow> Inr (Some True, s'))"
  by (simp add: stack_objs_def verify_args_map_Some map_the_map_Some)

lemma for_range_append:
  "for_range body (xs @ ys) s =
     (case for_range body xs s of Inl e \<Rightarrow> Inl e | Inr s' \<Rightarrow> for_range body ys s')"
  by (induction xs arbitrary: s) (auto split: sum.splits)

lemma for_range_fixed:
  "(\<And>i. i \<in> set is \<Longrightarrow> body i s = Inr s) \<Longrightarrow> for_range body is s = Inr s"
  by (induction "is") auto

text \<open>Pass \<open>k\<close> works on the scene that the passes \<open>0, \<dots>, k - 1\<close> have left.\<close>

lemma for_range_upt_Suc:
  "for_range body [0..<Suc k] s =
     (case for_range body [0..<k] s of Inl e \<Rightarrow> Inl e | Inr s' \<Rightarrow> body k s')"
  by (simp add: for_range_append split: sum.splits)


subsection \<open>One pass of the loop\<close>

lemma stack_step_result:
  assumes "s (arg_list ! i) = Some ba" "s (arg_list ! (i + 1)) = Some bb"
  shows "stack_step arg_list i s =
           Inr (s(arg_list ! (i + 1) \<mapsto>
                  translate_bbox ((xmin ba + xmax ba) / 2 - (xmin bb + xmax bb) / 2)
                                 (ymax ba - ymin bb)
                                 ((zmin ba + zmax ba) / 2 - (zmin bb + zmax bb) / 2) bb))"
  using assms
  by (simp add: stack_step_def get_center_point_Inr create_stack_def Let_def px_def py_def pz_def
      move_relative_Some)

lemma stack_step_contiguous:
  assumes "s a = Some ba" "s b = Some bb" "a \<noteq> b"
  shows "get_center_point b 0 1
           (s(b \<mapsto> translate_bbox ((xmin ba + xmax ba) / 2 - (xmin bb + xmax bb) / 2)
                                 (ymax ba - ymin bb)
                                 ((zmin ba + zmax ba) / 2 - (zmin bb + zmax bb) / 2) bb))
         = get_center_point a 1 0 s"
  using assms
  by (simp add: get_center_point_Inr translate_bbox_def field_simps)

text \<open>When the two centres already coincide the move is by zero and the scene is kept.\<close>

lemma stack_step_noop:
  assumes "get_center_point (arg_list ! i) 1 0 s = Inr p"
    and "get_center_point (arg_list ! (i + 1)) 0 1 s = Inr p"
  shows "stack_step arg_list i s = Inr s"
proof -
  from assms(2) obtain bb where bb: "s (arg_list ! (i + 1)) = Some bb"
    using get_center_point_exists by blast
  have "translate_bbox 0 0 0 bb = bb"
    by (simp add: translate_bbox_def)
  with bb have "s(arg_list ! (i + 1) \<mapsto> translate_bbox 0 0 0 bb) = s"
    by (simp add: map_upd_triv)
  with assms bb show ?thesis
    by (simp add: stack_step_def create_stack_def Let_def move_relative_Some px_def py_def pz_def)
qed

subsection \<open>The loop on an assembled sequence and on a sequence without repetition\<close>

lemma assembled_iff:
  "assembled arg_list s =
     (\<forall>i. i + 1 < length arg_list \<longrightarrow>
        (\<exists>p. get_center_point (arg_list ! i) 1 0 s = Inr p
            \<and> get_center_point (arg_list ! (i + 1)) 0 1 s = Inr p))"
proof
  assume a: "assembled arg_list s"
  show "\<forall>i. i + 1 < length arg_list \<longrightarrow>
        (\<exists>p. get_center_point (arg_list ! i) 1 0 s = Inr p
            \<and> get_center_point (arg_list ! (i + 1)) 0 1 s = Inr p)"
  proof (intro allI impI)
    fix i assume "i + 1 < length arg_list"
    then have "i \<in> {0..<length arg_list - 1}" by auto
    with a have "case (get_center_point (arg_list ! i) 1 0 s,
              get_center_point (arg_list ! (i + 1)) 0 1 s) of
          (Inr top_center, Inr bottom_center) \<Rightarrow> top_center = bottom_center
        | _ \<Rightarrow> False"
      unfolding assembled_def by blast
    then show "\<exists>p. get_center_point (arg_list ! i) 1 0 s = Inr p
            \<and> get_center_point (arg_list ! (i + 1)) 0 1 s = Inr p"
      by (cases "get_center_point (arg_list ! i) 1 0 s";
          cases "get_center_point (arg_list ! (i + 1)) 0 1 s") auto
  qed
next
  assume r: "\<forall>i. i + 1 < length arg_list \<longrightarrow>
        (\<exists>p. get_center_point (arg_list ! i) 1 0 s = Inr p
            \<and> get_center_point (arg_list ! (i + 1)) 0 1 s = Inr p)"
  show "assembled arg_list s"
    unfolding assembled_def
  proof
    fix i assume "i \<in> {0..<length arg_list - 1}"
    then have "i + 1 < length arg_list" by auto
    with r obtain p where "get_center_point (arg_list ! i) 1 0 s = Inr p"
      "get_center_point (arg_list ! (i + 1)) 0 1 s = Inr p" by blast
    then show "case (get_center_point (arg_list ! i) 1 0 s,
              get_center_point (arg_list ! (i + 1)) 0 1 s) of
          (Inr top_center, Inr bottom_center) \<Rightarrow> top_center = bottom_center
        | _ \<Rightarrow> False"
      by simp
  qed
qed

lemma for_range_noop:
  assumes "assembled arg_list s"
  shows "for_range (stack_step arg_list) [0..<length arg_list - 1] s = Inr s"
proof (rule for_range_fixed)
  fix i assume "i \<in> set [0..<length arg_list - 1]"
  then have "i + 1 < length arg_list" by auto
  with assms obtain p where
    "get_center_point (arg_list ! i) 1 0 s = Inr p"
    "get_center_point (arg_list ! (i + 1)) 0 1 s = Inr p"
    unfolding assembled_iff by blast
  then show "stack_step arg_list i s = Inr s"
    by (rule stack_step_noop)
qed

text \<open>
  The invariant of the loop on a sequence without repetition: after the passes
  \<open>0, \<dots>, k - 1\<close> every pair below \<open>k\<close> is contiguous, only the elements \<open>1, \<dots>, k\<close> have
  moved, and every object is still there. Pass \<open>k\<close> moves element \<open>k + 1\<close>, which by
  distinctness is none of the elements of the pairs already made.
\<close>

lemma for_range_assembles:
  assumes "distinct arg_list" and "set arg_list \<subseteq> dom s" and "k \<le> length arg_list - 1"
  shows "\<exists>s'. for_range (stack_step arg_list) [0..<k] s = Inr s'
            \<and> dom s' = dom s
            \<and> (\<forall>n. n \<notin> set (take (Suc k) arg_list) \<longrightarrow> s' n = s n)
            \<and> s' (arg_list ! 0) = s (arg_list ! 0)
            \<and> (\<forall>i<k. \<exists>p. get_center_point (arg_list ! i) 1 0 s' = Inr p
                          \<and> get_center_point (arg_list ! (i + 1)) 0 1 s' = Inr p)"
  using assms(3)
proof (induction k)
  case 0
  then show ?case by simp
next
  case (Suc k)
  then have k: "Suc k < length arg_list" by simp
  from Suc obtain s1 where
    run: "for_range (stack_step arg_list) [0..<k] s = Inr s1" and
    dom1: "dom s1 = dom s" and
    frame1: "\<forall>n. n \<notin> set (take (Suc k) arg_list) \<longrightarrow> s1 n = s n" and
    base1: "s1 (arg_list ! 0) = s (arg_list ! 0)" and
    inv1: "\<forall>i<k. \<exists>p. get_center_point (arg_list ! i) 1 0 s1 = Inr p
                     \<and> get_center_point (arg_list ! (i + 1)) 0 1 s1 = Inr p"
    by auto
  let ?a = "arg_list ! k" and ?b = "arg_list ! (k + 1)"
  from k assms(2) dom1 have "?a \<in> dom s1" "?b \<in> dom s1"
    by (auto simp: subset_iff)
  then obtain ba bb where ba: "s1 ?a = Some ba" and bb: "s1 ?b = Some bb"
    by auto
  define bb' where "bb' = translate_bbox ((xmin ba + xmax ba) / 2 - (xmin bb + xmax bb) / 2)
                                 (ymax ba - ymin bb)
                                 ((zmin ba + zmax ba) / 2 - (zmin bb + zmax bb) / 2) bb"
  define s2 where "s2 = s1(?b \<mapsto> bb')"
  have step: "stack_step arg_list k s1 = Inr s2"
    using stack_step_result [OF ba bb] by (simp add: s2_def bb'_def)
  have neq: "arg_list ! i \<noteq> ?b" if "i \<le> k" for i
    using that k assms(1) by (simp add: nth_eq_iff_index_eq)
  have run2: "for_range (stack_step arg_list) [0..<Suc k] s = Inr s2"
    by (simp add: for_range_append run step)
  have dom2: "dom s2 = dom s"
    using bb dom1 by (auto simp: s2_def)
  have frame2: "\<forall>n. n \<notin> set (take (Suc (Suc k)) arg_list) \<longrightarrow> s2 n = s n"
  proof (intro allI impI)
    fix n assume n: "n \<notin> set (take (Suc (Suc k)) arg_list)"
    have "?b \<in> set (take (Suc (Suc k)) arg_list)"
      using k by (auto simp: in_set_conv_nth intro!: exI [of _ "Suc k"])
    with n have "n \<noteq> ?b" by auto
    moreover have "n \<notin> set (take (Suc k) arg_list)"
      using n by (meson in_set_takeD le_SucI set_take_subset_set_take subsetD lessI less_imp_le)
    ultimately show "s2 n = s n"
      using frame1 by (simp add: s2_def)
  qed
  have base2: "s2 (arg_list ! 0) = s (arg_list ! 0)"
    using neq [of 0] base1 by (simp add: s2_def)
  have inv2: "\<exists>p. get_center_point (arg_list ! i) 1 0 s2 = Inr p
                \<and> get_center_point (arg_list ! (i + 1)) 0 1 s2 = Inr p" if "i < Suc k" for i
  proof (cases "i < k")
    case True
    with inv1 obtain p where
      "get_center_point (arg_list ! i) 1 0 s1 = Inr p"
      "get_center_point (arg_list ! (i + 1)) 0 1 s1 = Inr p" by blast
    moreover have "arg_list ! i \<noteq> ?b" "arg_list ! (i + 1) \<noteq> ?b"
      using neq [of i] neq [of "i + 1"] True by simp_all
    ultimately show ?thesis
      by (intro exI [of _ p]) (simp add: s2_def get_center_point_upd_other)
  next
    case False
    with that have ik: "i = k" by simp
    have top: "get_center_point ?a 1 0 s2 = get_center_point ?a 1 0 s1"
      using neq [of k] by (simp add: s2_def get_center_point_upd_other)
    have bot: "get_center_point ?b 0 1 s2 = get_center_point ?a 1 0 s1"
      unfolding s2_def bb'_def
      using stack_step_contiguous [OF ba bb] neq [of k] by simp
    obtain p where "get_center_point ?a 1 0 s1 = Inr p"
      using get_center_point_Inr [of s1 ?a ba 1 0] ba by blast
    with top bot ik show ?thesis
      by (intro exI [of _ p]) simp
  qed
  from run2 dom2 frame2 base2 inv2 show ?case by blast
qed

subsection \<open>The claims about \<^verbatim>\<open>stack_objs\<close>\<close>

text \<open>
  In exact arithmetic, for a sequence of objects of the scene in which no object occurs
  twice, the call returns \<^verbatim>\<open>True\<close> and afterwards, for every adjacent pair, the top
  centre of element \<open>i\<close> is the bottom centre of element \<open>i + 1\<close>; the first element and
  the objects outside the sequence have not moved.
\<close>

lemma stack_objs_assembles_exact:
  assumes "distinct arg_list" and "set arg_list \<subseteq> dom s"
  shows "\<exists>s'. stack_objs (map Some arg_list) s = Inr (Some True, s')
           \<and> (\<forall>i. i + 1 < length arg_list \<longrightarrow>
                 (\<exists>p. get_center_point (arg_list ! i) 1 0 s' = Inr p
                     \<and> get_center_point (arg_list ! (i + 1)) 0 1 s' = Inr p))
           \<and> (\<forall>n. n \<notin> set arg_list \<longrightarrow> s' n = s n)
           \<and> s' (arg_list ! 0) = s (arg_list ! 0)"
proof -
  from for_range_assembles [OF assms, of "length arg_list - 1"] obtain s' where
    run: "for_range (stack_step arg_list) [0..<length arg_list - 1] s = Inr s'" and
    frame: "\<forall>n. n \<notin> set (take (Suc (length arg_list - 1)) arg_list) \<longrightarrow> s' n = s n" and
    base: "s' (arg_list ! 0) = s (arg_list ! 0)" and
    inv: "\<forall>i<length arg_list - 1. \<exists>p. get_center_point (arg_list ! i) 1 0 s' = Inr p
                     \<and> get_center_point (arg_list ! (i + 1)) 0 1 s' = Inr p"
    by auto
  have "stack_objs (map Some arg_list) s = Inr (Some True, s')"
    unfolding stack_objs_map_Some run by simp
  moreover have "\<forall>i. i + 1 < length arg_list \<longrightarrow>
                 (\<exists>p. get_center_point (arg_list ! i) 1 0 s' = Inr p
                     \<and> get_center_point (arg_list ! (i + 1)) 0 1 s' = Inr p)"
    using inv by (simp add: less_diff_conv)
  moreover have "\<forall>n. n \<notin> set arg_list \<longrightarrow> s' n = s n"
    using frame by (meson in_set_takeD)
  ultimately show ?thesis
    using base by blast
qed

text \<open>
  The worked example of the specification: \<open>B\<close> is translated by \<open>(0, 2, 0)\<close> and its box
  becomes \<open>[0, 2, 0, 2, 3, 2]\<close>.
\<close>

lemma stack_objs_example:
  "stack_objs [Some ''A'', Some ''B''] scene_AB = Inr (Some True, scene_AB_stacked)"
  by (simp add: stack_objs_def stack_step_def get_center_point_def xform_boundingBox_def
      create_stack_def move_relative_def translate_bbox_def scene_AB_def scene_AB_stacked_def
      Let_def px_def py_def pz_def)

text \<open>
  C3, as the code has it. \<^verbatim>\<open>stack_objs\<close> gives up with \<^verbatim>\<open>None\<close> exactly when the sequence
  holds a \<^verbatim>\<open>None\<close> element, and then the scene is the one it was given: nothing has been
  queried or moved.
\<close>

theorem stack_objs_None_iff:
  "(stack_objs arg_list s = Inr (None, s')) = (None \<in> set arg_list \<and> s' = s)"
proof (cases "verify_args arg_list = None")
  case True
  then show ?thesis
    by (auto simp: stack_objs_def verify_args_None)
next
  case False
  then show ?thesis
    by (auto simp: stack_objs_def verify_args_None split: sum.splits)
qed

theorem stack_objs_None_iff_witness:
  "stack_objs [Some ''A'', None] scene_A = Inr (None, scene_A)
   \<and> stack_objs [Some ''A''] scene_A \<noteq> Inr (None, scene_A)"
  using stack_objs_None_iff [of "[Some ''A'', None]" scene_A scene_A]
        stack_objs_None_iff [of "[Some ''A'']" scene_A scene_A]
  by simp

text \<open>
  C3 as stated also has the empty sequence fail. It does not: the check finds no \<^verbatim>\<open>None\<close>
  in it, the loop has no pass to make, and the call returns \<^verbatim>\<open>True\<close>.
\<close>

theorem stack_objs_empty:
  "stack_objs [] scene_A = Inr (Some True, scene_A)
   \<and> stack_objs [] scene_A \<noteq> Inr (None, scene_A)"
  by (simp add: stack_objs_def)



text \<open>
  In exact arithmetic a second call on a sequence without repetition changes nothing: the
  first call leaves it assembled. With rounding the first call leaves the centres only
  close to each other, and the theorem above applies when they coincide.
\<close>

lemma stack_objs_twice:
  assumes "distinct arg_list" and "set arg_list \<subseteq> dom s"
  shows "\<exists>s'. stack_objs (map Some arg_list) s = Inr (Some True, s')
           \<and> stack_objs (map Some arg_list) s' = Inr (Some True, s')"
proof -
  from for_range_assembles [OF assms, of "length arg_list - 1"] obtain s' where
    run: "for_range (stack_step arg_list) [0..<length arg_list - 1] s = Inr s'" and
    inv: "\<forall>i<length arg_list - 1. \<exists>p. get_center_point (arg_list ! i) 1 0 s' = Inr p
                     \<and> get_center_point (arg_list ! (i + 1)) 0 1 s' = Inr p"
    by auto
  from inv have "assembled arg_list s'"
    by (simp add: assembled_iff less_diff_conv)
  then have "for_range (stack_step arg_list) [0..<length arg_list - 1] s' = Inr s'"
    by (rule for_range_noop)
  with run show ?thesis
    unfolding stack_objs_map_Some by simp
qed

section \<open>The same in the arithmetic of the code\<close>

subsection \<open>The rounding\<close>





















subsection \<open>The rounded functions\<close>

lemma exact_get_center_point: "get_center_point_fl (\<lambda>x. x) = get_center_point"
  by (intro ext) (simp add: get_center_point_fl_def get_center_point_def)

lemma exact_translate_bbox: "translate_bbox_fl (\<lambda>x. x) = translate_bbox"
  by (intro ext) (simp add: translate_bbox_fl_def translate_bbox_def)

lemma exact_move_relative: "move_relative_fl (\<lambda>x. x) = move_relative"
  by (intro ext) (simp only: move_relative_fl_def move_relative_def exact_translate_bbox)

lemma exact_create_stack: "create_stack_fl (\<lambda>x. x) = create_stack"
  by (intro ext) (simp add: create_stack_fl_def create_stack_def exact_move_relative)

lemma exact_offset_objs_in_x: "offset_objs_in_x_fl (\<lambda>x. x) = offset_objs_in_x"
  by (intro ext)
     (simp only: offset_objs_in_x_fl_def offset_objs_in_x_def exact_get_center_point
        exact_move_relative)

lemma exact_stack_step: "stack_step_fl (\<lambda>x. x) = stack_step"
  by (intro ext)
     (simp only: stack_step_fl_def stack_step_def exact_get_center_point exact_create_stack)

lemma exact_stack_objs: "stack_objs_fl (\<lambda>x. x) = stack_objs"
  by (intro ext) (simp only: stack_objs_fl_def stack_objs_def exact_stack_step)









subsection \<open>Error bounds\<close>







subsection \<open>The claims about exact coincidence\<close>








section \<open>Reading the stack description\<close>

lemma store_all_Nil: "store_all [] contents = contents"
  by (simp add: store_all_def)

lemma store_all_Cons:
  "store_all (((k1, k2, k3), v) # es) contents = store_all es (setitem3 contents k1 k2 k3 v)"
  by (simp add: store_all_def)

lemma store_all_append: "store_all (es @ fs) contents = store_all fs (store_all es contents)"
  by (simp add: store_all_def)

lemma lookup3_empty: "lookup3 Map.empty j1 j2 j3 = None"
  by (simp add: lookup3_def)

lemma lookup3_setitem3:
  "lookup3 (setitem3 contents k1 k2 k3 v) j1 j2 j3 =
     (if (j1, j2, j3) = (k1, k2, k3) then Some v else lookup3 contents j1 j2 j3)"
  by (auto simp: lookup3_def setitem3_def getitem_def Let_def split: option.splits)

text \<open>A later entry under the same three keys replaces an earlier one.\<close>

lemma lookup3_store_all:
  "lookup3 (store_all es contents) j1 j2 j3 =
     (case map_of (rev es) (j1, j2, j3) of
        None \<Rightarrow> lookup3 contents j1 j2 j3
      | Some v \<Rightarrow> Some v)"
proof (induction es arbitrary: contents)
  case Nil
  then show ?case by (simp add: store_all_Nil)
next
  case (Cons e es)
  obtain k1 k2 k3 v where e: "e = ((k1, k2, k3), v)"
    by (metis prod_cases4 surj_pair)
  show ?case
    by (auto simp: e store_all_Cons Cons.IH lookup3_setitem3 map_add_def split: option.splits)
qed

text \<open>The three loops store the entries of the document, or stop with \<^verbatim>\<open>KeyError\<close>.\<close>

lemma for_comp_store_all:
  "list_all (\<lambda>comp_elem. map_of (attrib comp_elem) ''value'' \<noteq> None) point \<Longrightarrow>
   for_comp stack_tag i_tag point contents =
     Inr (store_all (comp_entries stack_tag i_tag point) contents)"
proof (induction point arbitrary: contents)
  case Nil
  then show ?case by (simp add: comp_entries_def store_all_Nil)
next
  case (Cons c point)
  then obtain v where v: "map_of (attrib c) ''value'' = Some v" by auto
  have "comp_entries stack_tag i_tag (c # point) =
          ((stack_tag, i_tag, tag c), v) # comp_entries stack_tag i_tag point"
    by (simp add: comp_entries_def v)
  with Cons v show ?case
    by (simp add: store_all_Cons)
qed

lemma for_comp_KeyError:
  "\<not> list_all (\<lambda>comp_elem. map_of (attrib comp_elem) ''value'' \<noteq> None) point \<Longrightarrow>
   for_comp stack_tag i_tag point contents = Inl KeyError"
  by (induction point arbitrary: contents) (auto split: option.splits)

lemma for_i_store_all:
  "list_all (\<lambda>i. list_all (\<lambda>comp_elem. map_of (attrib comp_elem) ''value'' \<noteq> None) (getchildren i)) vector \<Longrightarrow>
   for_i stack_tag vector contents = Inr (store_all (i_entries stack_tag vector) contents)"
proof (induction vector arbitrary: contents)
  case Nil
  then show ?case by (simp add: i_entries_def store_all_Nil)
next
  case (Cons i vector)
  have "i_entries stack_tag (i # vector) =
          comp_entries stack_tag (tag i) (getchildren i) @ i_entries stack_tag vector"
    by (simp add: i_entries_def)
  with Cons show ?case
    by (simp add: for_comp_store_all store_all_append)
qed

lemma for_i_KeyError:
  "\<not> list_all (\<lambda>i. list_all (\<lambda>comp_elem. map_of (attrib comp_elem) ''value'' \<noteq> None) (getchildren i)) vector \<Longrightarrow>
   for_i stack_tag vector contents = Inl KeyError"
proof (induction vector arbitrary: contents)
  case Nil
  then show ?case by simp
next
  case (Cons i vector)
  show ?case
  proof (cases "list_all (\<lambda>comp_elem. map_of (attrib comp_elem) ''value'' \<noteq> None) (getchildren i)")
    case True
    with Cons show ?thesis
      by (simp add: for_comp_store_all)
  next
    case False
    then show ?thesis
      by (simp add: for_comp_KeyError)
  qed
qed

lemma for_stack_store_all:
  "list_all (\<lambda>stack. list_all (\<lambda>i. list_all (\<lambda>comp_elem. map_of (attrib comp_elem) ''value'' \<noteq> None)
                                     (getchildren i)) (getchildren stack)) groups \<Longrightarrow>
   for_stack groups contents =
     Inr (store_all (concat (map (\<lambda>stack. i_entries (tag stack) (getchildren stack)) groups)) contents)"
proof (induction groups arbitrary: contents)
  case Nil
  then show ?case by (simp add: store_all_Nil)
next
  case (Cons g groups)
  then show ?case
    by (simp add: for_i_store_all store_all_append)
qed

lemma for_stack_KeyError:
  "\<not> list_all (\<lambda>stack. list_all (\<lambda>i. list_all (\<lambda>comp_elem. map_of (attrib comp_elem) ''value'' \<noteq> None)
                                     (getchildren i)) (getchildren stack)) groups \<Longrightarrow>
   for_stack groups contents = Inl KeyError"
proof (induction groups arbitrary: contents)
  case Nil
  then show ?case by simp
next
  case (Cons g groups)
  show ?case
  proof (cases "list_all (\<lambda>i. list_all (\<lambda>comp_elem. map_of (attrib comp_elem) ''value'' \<noteq> None)
                                     (getchildren i)) (getchildren g)")
    case True
    with Cons show ?thesis
      by (simp add: for_i_store_all)
  next
    case False
    then show ?thesis
      by (simp add: for_i_KeyError)
  qed
qed

lemma read_stack_xml_KeyError:
  "isfile fs file_path \<Longrightarrow> parse fs file_path = Inr root_elem \<Longrightarrow> \<not> has_values root_elem \<Longrightarrow>
   read_stack_xml fs file_path = Inl KeyError"
  by (simp add: read_stack_xml_def has_values_def for_stack_KeyError)

lemma entries_doc_children:
  "entries doc_children =
     [((''maya_stacks'', ''stack001'', ''tx''), ''0''),
      ((''maya_stacks'', ''stack001'', ''ty''), ''1.5''),
      ((''maya_stacks'', ''stack001'', ''tz''), ''0'')]"
  by (simp add: entries_def i_entries_def comp_entries_def doc_children_def)

lemma dict_of_Nil: "dict_of [] = Map.empty"
  by (simp add: dict_of_def group_keys_def)

lemma group_keys_snoc: "group_keys (es @ [((k1, k2, k3), v)]) = insert k1 (group_keys es)"
  by (auto simp: group_keys_def)

lemma object_keys_snoc:
  "object_keys (es @ [((k1, k2, k3), v)]) j1 =
     (if j1 = k1 then insert k2 (object_keys es j1) else object_keys es j1)"
  by (auto simp: object_keys_def)

lemma map_of_rev_snoc:
  "map_of (rev (es @ [(k, v)])) j = (if j = k then Some v else map_of (rev es) j)"
  by simp

lemma map_of_rev_None_group:
  "k1 \<notin> group_keys es \<Longrightarrow> map_of (rev es) (k1, k2, k3) = None"
  by (force simp: group_keys_def map_of_eq_None_iff)

lemma map_of_rev_None_object:
  "k2 \<notin> object_keys es k1 \<Longrightarrow> map_of (rev es) (k1, k2, k3) = None"
  by (force simp: object_keys_def map_of_eq_None_iff)

lemma object_keys_empty: "k1 \<notin> group_keys es \<Longrightarrow> object_keys es k1 = {}"
  by (force simp: object_keys_def group_keys_def)

lemma setitem3_dict_of:
  "setitem3 (dict_of es) k1 k2 k3 v = dict_of (es @ [((k1, k2, k3), v)])"
proof (rule ext)
  fix j1
  show "setitem3 (dict_of es) k1 k2 k3 v j1 = dict_of (es @ [((k1, k2, k3), v)]) j1"
  proof (cases "j1 = k1")
    case False
    have m: "map_of (rev (es @ [((k1, k2, k3), v)])) (j1, a, b) = map_of (rev es) (j1, a, b)" for a b
      using False by simp
    from False show ?thesis
      by (simp add: setitem3_def Let_def dict_of_def group_keys_snoc object_keys_snoc m
          del: map_of_append rev_append cong: if_cong)
  next
    case True
    have "((getitem (getitem (dict_of es) k1) k2)(k3 \<mapsto> v)) j3 =
            map_of (rev (es @ [((k1, k2, k3), v)])) (k1, k2, j3)" for j3
      by (simp add: getitem_def dict_of_def map_of_rev_None_group map_of_rev_None_object)
    then have inner: "(getitem (getitem (dict_of es) k1) k2)(k3 \<mapsto> v) =
            (\<lambda>j3. map_of (rev (es @ [((k1, k2, k3), v)])) (k1, k2, j3))"
      by (intro ext) simp
    have outer: "((getitem (dict_of es) k1)(k2 \<mapsto> d)) j2 =
            (if j2 \<in> object_keys (es @ [((k1, k2, k3), v)]) k1
             then Some (if j2 = k2 then d else (\<lambda>k3. map_of (rev es) (k1, j2, k3)))
             else None)" for d j2
    proof (cases "k1 \<in> group_keys es")
      case True
      then have "getitem (dict_of es) k1 =
                   (\<lambda>k2. if k2 \<in> object_keys es k1
                         then Some (\<lambda>k3. map_of (rev es) (k1, k2, k3)) else None)"
        by (simp add: getitem_def dict_of_def)
      then show ?thesis
        by (simp add: object_keys_snoc)
    next
      case False
      then have "getitem (dict_of es) k1 = Map.empty"
        by (simp add: getitem_def dict_of_def)
      with False show ?thesis
        by (simp add: object_keys_snoc object_keys_empty)
    qed
    have upd: "(getitem (dict_of es) k1)(k2 \<mapsto> (\<lambda>j3. map_of (rev (es @ [((k1, k2, k3), v)])) (k1, k2, j3))) =
            (\<lambda>j2. if j2 \<in> object_keys (es @ [((k1, k2, k3), v)]) k1
                  then Some (\<lambda>j3. map_of (rev (es @ [((k1, k2, k3), v)])) (k1, j2, j3))
                  else None)"
    proof (rule ext)
      fix j2
      show "((getitem (dict_of es) k1)(k2 \<mapsto> (\<lambda>j3. map_of (rev (es @ [((k1, k2, k3), v)])) (k1, k2, j3)))) j2 =
            (if j2 \<in> object_keys (es @ [((k1, k2, k3), v)]) k1
                  then Some (\<lambda>j3. map_of (rev (es @ [((k1, k2, k3), v)])) (k1, j2, j3))
                  else None)"
        unfolding outer
        by (cases "j2 = k2") (simp_all cong: if_cong)
    qed
    have "setitem3 (dict_of es) k1 k2 k3 v k1 =
            Some ((getitem (dict_of es) k1)(k2 \<mapsto> (getitem (getitem (dict_of es) k1) k2)(k3 \<mapsto> v)))"
      by (simp add: setitem3_def Let_def)
    also have "\<dots> = dict_of (es @ [((k1, k2, k3), v)]) k1"
      unfolding inner upd
      by (simp add: dict_of_def group_keys_snoc del: map_of_append rev_append)
    finally show ?thesis using True by simp
  qed
qed


lemma store_all_dict_of: "store_all es Map.empty = dict_of es"
proof (induction es rule: rev_induct)
  case Nil
  then show ?case by (simp add: store_all_Nil dict_of_Nil)
next
  case (snoc e es)
  obtain k1 k2 k3 v where e: "e = ((k1, k2, k3), v)"
    by (metis prod_cases4 surj_pair)
  show ?case
    by (simp add: e store_all_append store_all_Cons store_all_Nil snoc.IH setitem3_dict_of)
qed

text \<open>
  C7, as the code has it. For a file whose document gives every element of the third
  level below the root an attribute \<^verbatim>\<open>value\<close>, \<^verbatim>\<open>read_stack_xml\<close> returns exactly this
  three-level dictionary: its keys are the tags of the children of the root that have an
  element at the third level below them; under such a tag, the keys are the tags of its
  children that have a child; under those, the keys are the tags of their children
  (\<open>tx\<close>, \<open>ty\<close>, \<open>tz\<close> in a stack description), each with the string of that element's
  attribute \<^verbatim>\<open>value\<close> as it is written in the file. Of several elements with the same
  three tags the last one counts.
\<close>

theorem read_stack_xml_contents:
  assumes "isfile fs file_path" and "parse fs file_path = Inr root_elem" and "has_values root_elem"
  shows "read_stack_xml fs file_path = Inr (Some (dict_of (entries root_elem)))"
proof -
  from assms(3) have
    "for_stack (getchildren root_elem) Map.empty = Inr (store_all (entries root_elem) Map.empty)"
    unfolding has_values_def entries_def by (rule for_stack_store_all)
  with assms(1,2) show ?thesis
    by (simp add: read_stack_xml_def store_all_dict_of)
qed

theorem read_stack_xml_contents_witness:
  "read_stack_xml (fs_of doc_children) ''stack.xml'' =
     Inr (Some (dict_of [((''maya_stacks'', ''stack001'', ''tx''), ''0''),
                         ((''maya_stacks'', ''stack001'', ''ty''), ''1.5''),
                         ((''maya_stacks'', ''stack001'', ''tz''), ''0'')]))
   \<and> lookup3 (dict_of [((''maya_stacks'', ''stack001'', ''tx''), ''0''),
                        ((''maya_stacks'', ''stack001'', ''ty''), ''1.5''),
                        ((''maya_stacks'', ''stack001'', ''tz''), ''0'')])
         ''maya_stacks'' ''stack001'' ''ty'' = Some ''1.5''
   \<and> dict_of [((''maya_stacks'', ''stack001'', ''tx''), ''0''),
               ((''maya_stacks'', ''stack001'', ''ty''), ''1.5''),
               ((''maya_stacks'', ''stack001'', ''tz''), ''0'')] ''stack001'' = None"
proof -
  have f: "isfile (fs_of doc_children) ''stack.xml''"
    by (simp add: fs_of_def)
  have p: "parse (fs_of doc_children) ''stack.xml'' = Inr doc_children"
    by (simp add: fs_of_def)
  have h: "has_values doc_children"
    by (simp add: has_values_def doc_children_def)
  show ?thesis
    using read_stack_xml_contents [OF f p h]
    by (simp add: entries_doc_children lookup3_def dict_of_def group_keys_def object_keys_def)
qed

text \<open>
  C7 as stated takes \<open>tx\<close>, \<open>ty\<close>, \<open>tz\<close> from attributes of the object entry. On a
  document that carries them there, the object entry has no child element, no store
  happens, and the function returns the empty dictionary: no group, no object, no
  coordinate.
\<close>

theorem read_stack_xml_attributes_ignored:
  "read_stack_xml (fs_of doc_attributes) ''stack.xml'' = Inr (Some Map.empty)
   \<and> lookup3 Map.empty ''stack001'' ''second_bottom1'' ''tx'' = None"
  by (simp add: read_stack_xml_def fs_of_def doc_attributes_def lookup3_def)

text \<open>
  C10. When \<^verbatim>\<open>file_path\<close> does not name an existing file, \<^verbatim>\<open>read_stack_xml\<close> returns
  \<^verbatim>\<open>None\<close>: it does not raise, and the result does not depend on what parsing the path
  would give.
\<close>

theorem read_stack_xml_not_a_file:
  assumes "\<not> isfile fs file_path"
  shows "read_stack_xml (fs\<lparr>parse := any_parse\<rparr>) file_path = Inr None"
  using assms by (simp add: read_stack_xml_def)

theorem read_stack_xml_not_a_file_witness:
  "read_stack_xml (fs_of doc_children) ''missing.xml'' = Inr None
   \<and> read_stack_xml ((fs_of doc_children)\<lparr>parse := (\<lambda>file_path. Inl ParseError)\<rparr>) ''missing.xml''
       = Inr None"
proof -
  have n: "\<not> isfile (fs_of doc_children) ''missing.xml''"
    by (simp add: fs_of_def)
  show ?thesis
    using read_stack_xml_not_a_file [OF n, of "parse (fs_of doc_children)"]
          read_stack_xml_not_a_file [OF n, of "\<lambda>file_path. Inl ParseError"]
    by simp
qed

end
